theory Spec2Isabelle
  imports Complex_Main "HOL-Library.AList"
begin

section \<open>Values exchanged with the HTTP boundary\<close>

text \<open>
  A Python float is either a finite binary fraction or one of the three special values.
  Every finite float is a rational number, so \<open>Finite q\<close> with \<open>q :: rat\<close> covers all of
  them; \<open>int()\<close> of a finite float is the exact truncation of its value.
\<close>

datatype pyfloat = Finite rat | PosInf | NegInf | NaN

text \<open>
  The value of \<open>request.json\<close>: what Python's JSON decoder produces. \<open>JNull\<close> is Python's
  \<open>None\<close>; an object is a dict, read here through \<open>map_of\<close>.
\<close>

datatype json =
    JNull
  | JBool bool
  | JInt int
  | JFloat pyfloat
  | JStr string
  | JArr "json list"
  | JObj "(string \<times> json) list"

text \<open>The exceptions that the builtins used by the handlers can raise.\<close>

datatype py_exception = ValueError | TypeError | OverflowError | KeyError

type_synonym response = "json \<times> nat"

section \<open>The node record (class Node)\<close>

text \<open>The three strings ever stored in \<open>Node.status\<close>.\<close>

datatype status = Ready | NotReady | Failed

fun status_str :: "status \<Rightarrow> string" where
  "status_str Ready = ''Ready''"
| "status_str NotReady = ''NotReady''"
| "status_str Failed = ''Failed''"

record Node =
  node_id :: string
  cpu_cores :: int
  available_cores :: int
  pods :: "string list"
  status :: status
  last_heartbeat :: rat
  container_id :: json

text \<open>
  \<open>Node.__init__(cpu_cores, node_id=None)\<close>. The two readings of the environment are
  explicit arguments: \<open>uid\<close> is the string \<open>str(uuid.uuid4())\<close> and \<open>now\<close> is \<open>time.time()\<close>.
  A given \<open>node_id\<close> is used when it is truthy (a non-empty string).
\<close>

definition Node_init :: "int \<Rightarrow> string option \<Rightarrow> string \<Rightarrow> rat \<Rightarrow> Node" where
  "Node_init cores nid uid now =
     \<lparr> node_id = (case nid of
                     None \<Rightarrow> uid
                   | Some i \<Rightarrow> (if i \<noteq> [] then i else uid)),
       cpu_cores = cores,
       available_cores = cores,
       pods = [],
       status = Ready,
       last_heartbeat = now,
       container_id = JNull \<rparr>"

definition to_dict :: "Node \<Rightarrow> json" where
  "to_dict n =
     JObj [(''node_id'', JStr (node_id n)),
           (''cpu_cores'', JInt (cpu_cores n)),
           (''available_cores'', JInt (available_cores n)),
           (''pods'', JArr (map JStr (pods n))),
           (''status'', JStr (status_str (status n))),
           (''last_heartbeat'', JFloat (Finite (last_heartbeat n))),
           (''container_id'', container_id n)]"

section \<open>The registry (class APIServer)\<close>

text \<open>
  \<open>self.nodes\<close> is a dict from node id to node; it is kept as an association list in
  insertion order, with \<open>AList.update\<close> as the dict assignment (an existing key keeps its
  place, a new key goes to the end) and \<open>map_of\<close> as the lookup.
\<close>

record APIServer =
  nodes :: "(string \<times> Node) list"
  srv_pods :: "(string \<times> json) list"
  heartbeat_timeout :: int

definition APIServer_init :: APIServer where
  "APIServer_init = \<lparr> nodes = [], srv_pods = [], heartbeat_timeout = 30 \<rparr>"

definition register_node :: "int \<Rightarrow> json \<Rightarrow> string \<Rightarrow> rat \<Rightarrow> APIServer \<Rightarrow> Node \<times> APIServer" where
  "register_node cores cid uid now s =
     (let new_node = (Node_init cores None uid now)\<lparr> container_id := cid \<rparr>
      in (new_node, s\<lparr> nodes := AList.update (node_id new_node) new_node (nodes s) \<rparr>))"


definition list_nodes :: "APIServer \<Rightarrow> json list" where
  "list_nodes s = map (\<lambda>(k, node). to_dict node) (nodes s)"

definition update_node_heartbeat :: "string \<Rightarrow> rat \<Rightarrow> APIServer \<Rightarrow> bool \<times> APIServer" where
  "update_node_heartbeat i now s =
     (if map_of (nodes s) i \<noteq> None
      then (True, s\<lparr> nodes := AList.map_entry i (\<lambda>n. n\<lparr> last_heartbeat := now \<rparr>) (nodes s) \<rparr>)
      else (False, s))"

section \<open>The health monitor\<close>

text \<open>
  The body of the \<open>for\<close> loop of \<open>_monitor_node_health\<close>, on one node. Clock readings are
  rationals and the subtraction is exact; a status other than Ready and NotReady falls
  through both branches.
\<close>

definition check_node :: "rat \<Rightarrow> int \<Rightarrow> Node \<Rightarrow> Node" where
  "check_node current_time timeout node =
     (if current_time - last_heartbeat node > of_int timeout
      then (if status node = Ready then node\<lparr> status := NotReady \<rparr>
            else if status node = NotReady then node\<lparr> status := Failed \<rparr>
            else node)
      else node)"

text \<open>
  The \<open>for\<close> loop over \<open>list(self.nodes.items())\<close>: the first list is the snapshot taken
  before the loop, the second the registry. The node objects of the snapshot are the
  objects of the registry, so assigning \<open>node.status\<close> changes the registry's entry.
\<close>

fun scan_items :: "rat \<Rightarrow> int \<Rightarrow> (string \<times> Node) list \<Rightarrow> (string \<times> Node) list \<Rightarrow> (string \<times> Node) list" where
  "scan_items current_time timeout [] reg = reg"
| "scan_items current_time timeout ((i, _) # rest) reg =
     scan_items current_time timeout rest (AList.map_entry i (check_node current_time timeout) reg)"

text \<open>One pass of the \<open>while True\<close> body, with the clock reading \<open>current_time\<close>.\<close>

definition scan_tick :: "rat \<Rightarrow> APIServer \<Rightarrow> APIServer" where
  "scan_tick current_time s =
     s\<lparr> nodes := scan_items current_time (heartbeat_timeout s) (nodes s) (nodes s) \<rparr>"

text \<open>
  The monitor thread runs the body once per clock reading, for as long as the process
  lives; a run of it is given by the list of the readings taken so far.
\<close>

fun monitor_node_health :: "rat list \<Rightarrow> APIServer \<Rightarrow> APIServer" where
  "monitor_node_health [] s = s"
| "monitor_node_health (t # ts) s = monitor_node_health ts (scan_tick t s)"

section \<open>Python builtins used by the handlers\<close>

fun py_truthy :: "json \<Rightarrow> bool" where
  "py_truthy JNull = False"
| "py_truthy (JBool b) = b"
| "py_truthy (JInt n) = (n \<noteq> 0)"
| "py_truthy (JFloat f) = (f \<noteq> Finite 0)"
| "py_truthy (JStr s) = (s \<noteq> [])"
| "py_truthy (JArr xs) = (xs \<noteq> [])"
| "py_truthy (JObj kv) = (kv \<noteq> [])"

fun py_str_contains :: "string \<Rightarrow> string \<Rightarrow> bool" where
  "py_str_contains k [] = (k = [])"
| "py_str_contains k (c # cs) = (take (length k) (c # cs) = k \<or> py_str_contains k cs)"

text \<open>\<open>key in data\<close>: dict membership, list membership, substring; a number is not iterable.\<close>

fun py_contains :: "string \<Rightarrow> json \<Rightarrow> py_exception + bool" where
  "py_contains k (JObj kv) = Inr (map_of kv k \<noteq> None)"
| "py_contains k (JArr xs) = Inr (JStr k \<in> set xs)"
| "py_contains k (JStr s) = Inr (py_str_contains k s)"
| "py_contains k _ = Inl TypeError"

text \<open>
  \<open>data[key]\<close> with a string key: only a dict can be indexed by a string, and a dict
  without the key raises KeyError.
\<close>

fun py_getitem :: "json \<Rightarrow> string \<Rightarrow> py_exception + json" where
  "py_getitem (JObj kv) k = (case map_of kv k of Some v \<Rightarrow> Inr v | None \<Rightarrow> Inl KeyError)"
| "py_getitem _ k = Inl TypeError"

fun py_get :: "json \<Rightarrow> string \<Rightarrow> json" where
  "py_get (JObj kv) k = (case map_of kv k of Some v \<Rightarrow> v | None \<Rightarrow> JNull)"
| "py_get _ k = JNull"

definition trunc :: "rat \<Rightarrow> int" where
  "trunc q = (if 0 \<le> q then \<lfloor>q\<rfloor> else \<lceil>q\<rceil>)"

definition is_space :: "char \<Rightarrow> bool" where
  "is_space c = (of_char c \<in> {9, 10, 11, 12, 13, 32 :: nat})"

definition is_digit :: "char \<Rightarrow> bool" where
  "is_digit c = (48 \<le> (of_char c :: nat) \<and> (of_char c :: nat) \<le> 57)"

fun parse_digits :: "int \<Rightarrow> bool \<Rightarrow> string \<Rightarrow> int option" where
  "parse_digits acc after_digit [] = (if after_digit then Some acc else None)"
| "parse_digits acc after_digit (c # cs) =
     (if is_digit c then parse_digits (10 * acc + (of_char c - 48)) True cs
      else if c = CHR ''_'' \<and> after_digit then parse_digits acc False cs
      else None)"

text \<open>
  \<open>int(s)\<close> on a string of ASCII characters: surrounding whitespace is dropped, one sign
  is allowed, then decimal digits, single underscores allowed between digits. \<open>None\<close>
  stands for the ValueError.
\<close>

definition int_of_str :: "string \<Rightarrow> int option" where
  "int_of_str s =
     (case rev (dropWhile is_space (rev (dropWhile is_space s))) of
        [] \<Rightarrow> None
      | c # cs \<Rightarrow>
          (if c = CHR ''-'' then map_option uminus (parse_digits 0 False cs)
           else if c = CHR ''+'' then parse_digits 0 False cs
           else parse_digits 0 False (c # cs)))"

text \<open>\<open>int(x)\<close> on a decoded JSON value.\<close>

fun py_int :: "json \<Rightarrow> py_exception + int" where
  "py_int JNull = Inl TypeError"
| "py_int (JBool b) = Inr (if b then 1 else 0)"
| "py_int (JInt n) = Inr n"
| "py_int (JFloat (Finite q)) = Inr (trunc q)"
| "py_int (JFloat NaN) = Inl ValueError"
| "py_int (JFloat PosInf) = Inl OverflowError"
| "py_int (JFloat NegInf) = Inl OverflowError"
| "py_int (JStr s) = (case int_of_str s of Some n \<Rightarrow> Inr n | None \<Rightarrow> Inl ValueError)"
| "py_int (JArr xs) = Inl TypeError"
| "py_int (JObj kv) = Inl TypeError"

section \<open>The request handlers\<close>

text \<open>
  A handler returns the pair of body and status code, or raises; an exception that leaves
  the handler is \<open>Inl\<close>. The registry after the call is the second component. The
  argument \<open>data\<close> of \<open>add_node\<close> is the decoded body \<open>request.json\<close>, \<open>JNull\<close> when there
  is none.
\<close>

definition add_node :: "json \<Rightarrow> string \<Rightarrow> rat \<Rightarrow> APIServer \<Rightarrow> (py_exception + response) \<times> APIServer" where
  "add_node data uid now s =
     (if \<not> py_truthy data
      then (Inr (JObj [(''error'', JStr ''CPU cores specification required'')], 400), s)
      else case py_contains ''cpu_cores'' data of
        Inl e \<Rightarrow> (Inl e, s)
      | Inr False \<Rightarrow> (Inr (JObj [(''error'', JStr ''CPU cores specification required'')], 400), s)
      | Inr True \<Rightarrow>
          (case py_getitem data ''cpu_cores'' of
             Inl e \<Rightarrow> (Inl e, s)
           | Inr v \<Rightarrow>
               (case py_int v of
                  Inl ValueError \<Rightarrow> (Inr (JObj [(''error'', JStr ''CPU cores must be a number'')], 400), s)
                | Inl e \<Rightarrow> (Inl e, s)
                | Inr cores \<Rightarrow>
                    (if cores \<le> 0
                     then (Inr (JObj [(''error'', JStr ''CPU cores must be positive'')], 400), s)
                     else
                       (let cid = py_get data ''container_id'';
                            (new_node, s') = register_node cores cid uid now s
                        in (Inr (JObj [(''message'', JStr ''Node added successfully''),
                                       (''node_id'', JStr (node_id new_node)),
                                       (''cpu_cores'', JInt (cpu_cores new_node))], 201), s'))))))"

definition list_nodes_handler :: "APIServer \<Rightarrow> response" where
  "list_nodes_handler s =
     (let ns = list_nodes s
      in (JObj [(''nodes'', JArr ns), (''count'', JInt (int (length ns)))], 200))"

definition update_heartbeat :: "string \<Rightarrow> rat \<Rightarrow> APIServer \<Rightarrow> response \<times> APIServer" where
  "update_heartbeat i now s =
     (let (success, s') = update_node_heartbeat i now s
      in if success then ((JObj [(''status'', JStr ''Heartbeat received'')], 200), s')
         else ((JObj [(''error'', JStr ''Node not found'')], 404), s'))"

definition health_check :: response where
  "health_check = (JObj [(''status'', JStr ''healthy'')], 200)"

section \<open>Runs of the control plane\<close>

text \<open>
  The operations on the registry, in the order in which they take effect: the four
  registry calls made by request handlers and one pass of the monitor. Each carries the
  readings of the environment it makes (the generated id, the clock).
\<close>

datatype event =
    Register int json string rat
  | Get string
  | ListNodes
  | Heartbeat string rat
  | Tick rat

fun apply_event :: "event \<Rightarrow> APIServer \<Rightarrow> APIServer" where
  "apply_event (Register cores cid uid now) s = snd (register_node cores cid uid now s)"
| "apply_event (Get i) s = s"
| "apply_event ListNodes s = s"
| "apply_event (Heartbeat i now) s = snd (update_node_heartbeat i now s)"
| "apply_event (Tick now) s = scan_tick now s"

fun run :: "event list \<Rightarrow> APIServer \<Rightarrow> APIServer" where
  "run [] s = s"
| "run (e # es) s = run es (apply_event e s)"

text \<open>
  \<open>uuid.uuid4()\<close> draws 122 random bits; that it does not repeat an id already in the
  registry is the library's contract, not something \<open>register_node\<close> checks.
  \<open>event_ok\<close> states that contract for one operation.
\<close>

fun event_ok :: "event \<Rightarrow> APIServer \<Rightarrow> bool" where
  "event_ok (Register cores cid uid now) s = (map_of (nodes s) uid = None)"
| "event_ok _ s = True"

text \<open>An operation that names node \<open>i\<close>: a heartbeat for it, or a registration drawing its id.\<close>

fun touches :: "string \<Rightarrow> event \<Rightarrow> bool" where
  "touches i (Heartbeat j now) = (j = i)"
| "touches i (Register cores cid uid now) = (uid = i)"
| "touches i _ = False"

fun is_tick :: "event \<Rightarrow> bool" where
  "is_tick (Tick now) = True"
| "is_tick _ = False"

fun ticks_of :: "event list \<Rightarrow> rat list" where
  "ticks_of [] = []"
| "ticks_of (Tick now # es) = now # ticks_of es"
| "ticks_of (_ # es) = ticks_of es"

text \<open>
  Along a run from \<open>s\<close>, every pass of the monitor finds node \<open>i\<close> with
  \<open>elapsed \<le> timeout\<close>, and no registration draws its id again.
\<close>

fun ticks_fresh :: "string \<Rightarrow> event list \<Rightarrow> APIServer \<Rightarrow> bool" where
  "ticks_fresh i [] s = True"
| "ticks_fresh i (Tick now # es) s =
     ((case map_of (nodes s) i of
         None \<Rightarrow> False
       | Some n \<Rightarrow> now - last_heartbeat n \<le> of_int (heartbeat_timeout s))
      \<and> ticks_fresh i es (apply_event (Tick now) s))"
| "ticks_fresh i (Register cores cid uid now # es) s =
     (uid \<noteq> i \<and> ticks_fresh i es (apply_event (Register cores cid uid now) s))"
| "ticks_fresh i (e # es) s = ticks_fresh i es (apply_event e s)"

section \<open>The state machine as the specification tabulates it\<close>

text \<open>
  The table of the health monitor, row by row: the next status from the current status,
  the elapsed time and the timeout.
\<close>

fun spec_transition :: "status \<Rightarrow> rat \<Rightarrow> rat \<Rightarrow> status" where
  "spec_transition Ready elapsed timeout = (if elapsed \<le> timeout then Ready else NotReady)"
| "spec_transition NotReady elapsed timeout = (if elapsed > timeout then Failed else NotReady)"
| "spec_transition Failed elapsed timeout = Failed"

text \<open>The position of a status on the line Ready, NotReady, Failed.\<close>

fun rank :: "status \<Rightarrow> nat" where
  "rank Ready = 0"
| "rank NotReady = 1"
| "rank Failed = 2"

fun advance :: "status \<Rightarrow> status" where
  "advance Ready = NotReady"
| "advance NotReady = Failed"
| "advance Failed = Failed"

section \<open>Observations and example states\<close>

definition status_of :: "string \<Rightarrow> APIServer \<Rightarrow> status option" where
  "status_of i s = map_option status (map_of (nodes s) i)"

text \<open>A four-core node registered at time 0 on a fresh server, and the server holding it.\<close>

definition demo_node :: Node where
  "demo_node = (Node_init 4 None ''n1'' 0)\<lparr> container_id := JNull \<rparr>"

definition demo_server :: APIServer where
  "demo_server = snd (register_node 4 JNull ''n1'' 0 APIServer_init)"

section \<open>Association lists as dicts\<close>

lemma map_fst_map_entry: "map fst (AList.map_entry k f xs) = map fst xs"
  by (induction xs) auto



section \<open>One pass of the monitor\<close>

lemma map_fst_scan_items: "map fst (scan_items t T snap reg) = map fst reg"
  by (induction t T snap reg rule: scan_items.induct) (simp_all add: map_fst_map_entry)

text \<open>With distinct keys the loop visits every node of the snapshot exactly once.\<close>

lemma map_of_scan_items:
  "distinct (map fst snap) \<Longrightarrow>
   map_of (scan_items t T snap reg) i =
     (if i \<in> fst ` set snap then map_option (check_node t T) (map_of reg i) else map_of reg i)"
proof (induction t T snap reg rule: scan_items.induct)
  case (1 t T reg)
  show ?case by simp
next
  case (2 t T k uu rest reg)
  from "2.prems" have d: "distinct (map fst rest)" and k: "k \<notin> fst ` set rest" by auto
  show ?case
    using "2.IH"[OF d] k
    by (auto simp: map_of_map_entry split: option.splits)
qed

lemma map_of_scan_tick:
  assumes "distinct (map fst (nodes s))"
  shows "map_of (nodes (scan_tick t s)) i
           = map_option (check_node t (heartbeat_timeout s)) (map_of (nodes s) i)"
proof (cases "i \<in> fst ` set (nodes s)")
  case True
  then show ?thesis using assms by (simp add: scan_tick_def map_of_scan_items)
next
  case False
  then have "map_of (nodes s) i = None" by (simp add: map_of_eq_None_iff)
  then show ?thesis using assms False by (simp add: scan_tick_def map_of_scan_items)
qed

lemma scan_tick_timeout [simp]: "heartbeat_timeout (scan_tick t s) = heartbeat_timeout s"
  by (simp add: scan_tick_def)

lemma check_node_spec:
  "check_node t T n = n\<lparr> status := spec_transition (status n) (t - last_heartbeat n) (of_int T) \<rparr>"
  by (cases "status n") (auto simp: check_node_def)

lemma check_node_last_heartbeat: "last_heartbeat (check_node t T n) = last_heartbeat n"
  by (simp add: check_node_def)

lemma check_node_fresh:
  "t - last_heartbeat n \<le> of_int T \<Longrightarrow> check_node t T n = n"
  by (simp add: check_node_def)

lemma rank_spec_transition:
  "rank st \<le> rank (spec_transition st e T) \<and> rank (spec_transition st e T) \<le> rank st + 1"
  by (cases st) auto

section \<open>Single operations\<close>



lemma register_node_timeout [simp]:
  "heartbeat_timeout (snd (register_node c cid u t s)) = heartbeat_timeout s"
  by (simp add: register_node_def Let_def)

lemma register_node_lookup:
  "map_of (nodes (snd (register_node c cid u t s))) i
     = (if i = u then Some ((Node_init c None u t)\<lparr> container_id := cid \<rparr>) else map_of (nodes s) i)"
  by (simp add: register_node_def Let_def Node_init_def AList.update_conv')

lemma heartbeat_lookup:
  "map_of (nodes (snd (update_node_heartbeat j now s))) i
     = (if i = j then map_option (\<lambda>n. n\<lparr> last_heartbeat := now \<rparr>) (map_of (nodes s) i)
        else map_of (nodes s) i)"
  by (cases "map_of (nodes s) j") (simp_all add: update_node_heartbeat_def map_of_map_entry)

lemma apply_event_timeout: "heartbeat_timeout (apply_event e s) = heartbeat_timeout s"
  by (cases e) (simp_all add: register_node_def update_node_heartbeat_def scan_tick_def Let_def)

lemma apply_event_distinct:
  "distinct (map fst (nodes s)) \<Longrightarrow> distinct (map fst (nodes (apply_event e s)))"
  by (cases e)
     (simp_all add: register_node_def update_node_heartbeat_def scan_tick_def Let_def
        AList.distinct_update AList.distinct_map_entry map_fst_scan_items)

lemma dom_scan_items: "fst ` set (scan_items t T snap reg) = fst ` set reg"
  using arg_cong[OF map_fst_scan_items, of set t T snap reg] by simp

text \<open>No operation removes a key.\<close>

lemma apply_event_keys:
  "fst ` set (nodes s) \<subseteq> fst ` set (nodes (apply_event e s))"
  by (cases e)
     (auto simp: register_node_def update_node_heartbeat_def scan_tick_def Let_def
        AList.dom_update AList.dom_map_entry dom_scan_items)

lemma apply_event_untouched:
  assumes "\<not> touches i e" and "\<not> is_tick e"
  shows "map_of (nodes (apply_event e s)) i = map_of (nodes s) i"
  using assms by (cases e) (simp_all add: register_node_lookup heartbeat_lookup)

section \<open>Runs\<close>

lemma run_append: "run (xs @ ys) s = run ys (run xs s)"
  by (induction xs arbitrary: s) simp_all

lemma ticks_of_append: "ticks_of (xs @ ys) = ticks_of xs @ ticks_of ys"
  by (induction xs rule: ticks_of.induct) simp_all

text \<open>Every state reached from the initial one is a dict with the timeout of 30 seconds.\<close>

lemma run_well_formed:
  "distinct (map fst (nodes s)) \<Longrightarrow>
   distinct (map fst (nodes (run es s))) \<and> heartbeat_timeout (run es s) = heartbeat_timeout s"
  by (induction es arbitrary: s) (simp_all add: apply_event_distinct apply_event_timeout)

lemma reachable_well_formed:
  "distinct (map fst (nodes (run es APIServer_init))) \<and> heartbeat_timeout (run es APIServer_init) = 30"
  using run_well_formed[of APIServer_init es] by (simp add: APIServer_init_def)

lemma run_keys: "fst ` set (nodes s) \<subseteq> fst ` set (nodes (run es s))"
proof (induction es arbitrary: s)
  case Nil
  show ?case by simp
next
  case (Cons e es)
  show ?case using apply_event_keys[of s e] Cons[of "apply_event e s"] by auto
qed

text \<open>On a node that no operation names, a run acts through its ticks only.\<close>

lemma run_silent:
  assumes "distinct (map fst (nodes s))" and "map_of (nodes s) i = Some n"
    and "\<forall>e \<in> set es. \<not> touches i e"
  shows "map_of (nodes (run es s)) i
           = Some (foldl (\<lambda>m t. check_node t (heartbeat_timeout s) m) n (ticks_of es))"
  using assms
proof (induction es arbitrary: s n)
  case Nil
  then show ?case by simp
next
  case (Cons e es)
  have d: "distinct (map fst (nodes (apply_event e s)))"
    using Cons.prems(1) by (rule apply_event_distinct)
  have rest: "\<forall>e \<in> set es. \<not> touches i e" using Cons.prems(3) by simp
  have nt: "\<not> touches i e" using Cons.prems(3) by simp
  show ?case
  proof (cases e)
    case (Tick t)
    have look: "map_of (nodes (apply_event e s)) i = Some (check_node t (heartbeat_timeout s) n)"
      using Cons.prems(1,2) Tick by (simp add: map_of_scan_tick)
    show ?thesis
      using Cons.IH[OF d look rest] Tick by simp
  next
    case (Register c cid uid now)
    have look: "map_of (nodes (apply_event e s)) i = Some n"
      using apply_event_untouched[of i e s] nt Register Cons.prems(2) by simp
    show ?thesis
      using Cons.IH[OF d look rest] Register apply_event_timeout[of e s] by simp
  next
    case (Get j)
    then show ?thesis using Cons.IH[OF Cons.prems(1,2) rest] by simp
  next
    case ListNodes
    then show ?thesis using Cons.IH[OF Cons.prems(1,2) rest] by simp
  next
    case (Heartbeat j now)
    have look: "map_of (nodes (apply_event e s)) i = Some n"
      using apply_event_untouched[of i e s] nt Heartbeat Cons.prems(2) by simp
    show ?thesis
      using Cons.IH[OF d look rest] Heartbeat apply_event_timeout[of e s] by simp
  qed
qed

text \<open>Each tick that finds the node late moves its status one place; the others do nothing.\<close>

lemma foldl_check_node:
  "status (foldl (\<lambda>m t. check_node t T m) n ts)
     = (advance ^^ length (filter (\<lambda>t. t - last_heartbeat n > of_int T) ts)) (status n)
   \<and> foldl (\<lambda>m t. check_node t T m) n ts
       = n\<lparr> status := status (foldl (\<lambda>m t. check_node t T m) n ts) \<rparr>"
proof (induction ts arbitrary: n)
  case Nil
  show ?case by simp
next
  case (Cons t ts)
  have adv: "status (check_node t T n)
               = (if t - last_heartbeat n > of_int T then advance (status n) else status n)"
    by (cases "status n") (simp_all add: check_node_def)
  have rest: "check_node t T n = n\<lparr> status := status (check_node t T n) \<rparr>"
    by (simp add: check_node_def)
  show ?case
    using Cons.IH[of "check_node t T n"] adv rest
    by (auto simp: check_node_last_heartbeat funpow_swap1)
qed

lemma advance_twice: "(advance ^^ Suc (Suc k)) st = Failed"
proof (induction k)
  case 0
  show ?case by (cases st) simp_all
next
  case (Suc k)
  then show ?case by simp
qed

lemma silent_status:
  assumes "distinct (map fst (nodes s))" and "map_of (nodes s) i = Some n"
    and "\<forall>e \<in> set es. \<not> touches i e"
  shows "status_of i (run es s)
           = Some ((advance ^^ length (filter (\<lambda>t. t - last_heartbeat n > of_int (heartbeat_timeout s))
                                         (ticks_of es))) (status n))"
  using run_silent[OF assms] foldl_check_node[of "heartbeat_timeout s" n "ticks_of es"]
  by (simp add: status_of_def)

section \<open>The example states, evaluated\<close>

lemma demo_server_nodes: "nodes demo_server = [(''n1'', demo_node)]"
  by (simp add: demo_server_def demo_node_def register_node_def APIServer_init_def Node_init_def Let_def)

lemma demo_server_timeout: "heartbeat_timeout demo_server = 30"
  by (simp add: demo_server_def APIServer_init_def)

lemma demo_node_fields: "status demo_node = Ready" "last_heartbeat demo_node = 0"
  by (simp_all add: demo_node_def Node_init_def)

lemma demo_server_late:
  "nodes (scan_tick 31 demo_server) = [(''n1'', demo_node\<lparr> status := NotReady \<rparr>)]"
  by (simp add: scan_tick_def demo_server_nodes demo_server_timeout check_node_def demo_node_fields)

lemma trunc_gt_1: "1 < q \<Longrightarrow> trunc q = \<lfloor>q\<rfloor> \<and> 1 \<le> trunc q"
  by (simp add: trunc_def le_floor_iff)

lemma trunc_lt_1: "q < 1 \<Longrightarrow> trunc q \<le> 0"
  unfolding trunc_def by (auto simp: floor_less_iff ceiling_le_iff intro: less_imp_le)

section \<open>The health monitor's transition table\<close>

text \<open>
  Claim C1. On one scan tick, every record of the registry keeps all its fields but the
  status, and the status follows the table on \<open>elapsed = now - last_heartbeat\<close>: Ready stays
  Ready when \<open>elapsed \<le> timeout\<close> and becomes NotReady when \<open>elapsed > timeout\<close>; NotReady
  becomes Failed when \<open>elapsed > timeout\<close> and stays NotReady otherwise; Failed stays
  Failed. The status moves by at most one place, and the tick keeps the keys as they are.
\<close>

theorem scan_tick_transition:
  assumes "distinct (map fst (nodes s))" and "map_of (nodes s) i = Some n"
  shows "\<exists>n'. map_of (nodes (scan_tick now s)) i = Some n'
           \<and> n' = n\<lparr> status := status n' \<rparr>
           \<and> (status n = Ready \<and> now - last_heartbeat n \<le> of_int (heartbeat_timeout s) \<longrightarrow> status n' = Ready)
           \<and> (status n = Ready \<and> now - last_heartbeat n > of_int (heartbeat_timeout s) \<longrightarrow> status n' = NotReady)
           \<and> (status n = NotReady \<and> now - last_heartbeat n > of_int (heartbeat_timeout s) \<longrightarrow> status n' = Failed)
           \<and> (status n = NotReady \<and> now - last_heartbeat n \<le> of_int (heartbeat_timeout s) \<longrightarrow> status n' = NotReady)
           \<and> (status n = Failed \<longrightarrow> status n' = Failed)
           \<and> status n' = spec_transition (status n) (now - last_heartbeat n) (of_int (heartbeat_timeout s))
           \<and> rank (status n') \<le> rank (status n) + 1
           \<and> map fst (nodes (scan_tick now s)) = map fst (nodes s)"
proof -
  let ?e = "now - last_heartbeat n" and ?T = "rat_of_int (heartbeat_timeout s)"
  let ?n' = "n\<lparr> status := spec_transition (status n) ?e ?T \<rparr>"
  have look: "map_of (nodes (scan_tick now s)) i = Some ?n'"
    using assms by (simp add: map_of_scan_tick check_node_spec)
  have keys: "map fst (nodes (scan_tick now s)) = map fst (nodes s)"
    by (simp add: scan_tick_def map_fst_scan_items)
  have rows: "(status n = Ready \<and> ?e \<le> ?T \<longrightarrow> status ?n' = Ready)
           \<and> (status n = Ready \<and> ?e > ?T \<longrightarrow> status ?n' = NotReady)
           \<and> (status n = NotReady \<and> ?e > ?T \<longrightarrow> status ?n' = Failed)
           \<and> (status n = NotReady \<and> ?e \<le> ?T \<longrightarrow> status ?n' = NotReady)
           \<and> (status n = Failed \<longrightarrow> status ?n' = Failed)"
    by (cases "status n") auto
  have step: "rank (status ?n') \<le> rank (status n) + 1"
    using rank_spec_transition[of "status n" ?e ?T] by simp
  show ?thesis
    using look keys rows step by (intro exI[of _ ?n']) simp
qed

theorem scan_tick_transition_witness:
  "distinct (map fst (nodes demo_server))
   \<and> map_of (nodes demo_server) ''n1'' = Some demo_node
   \<and> status demo_node = Ready
   \<and> 31 - last_heartbeat demo_node > of_int (heartbeat_timeout demo_server)
   \<and> (\<exists>n'. map_of (nodes (scan_tick 31 demo_server)) ''n1'' = Some n' \<and> status n' = NotReady)"
  using scan_tick_transition[where s = demo_server and i = "''n1''" and n = demo_node and now = 31]
  by (auto simp: demo_server_nodes demo_server_timeout demo_node_fields)

section \<open>A node that falls silent\<close>

text \<open>
  Claim C2. A node registered at \<open>t0\<close> that no later operation names (no heartbeat for it)
  is Ready after the registration and after every tick as long as the ticks find
  \<open>elapsed \<le> 30\<close>; it is NotReady after the first tick \<open>a\<close> that finds \<open>elapsed > 30\<close>, and
  Failed after the very next tick \<open>b\<close>, whatever else happens in between and afterwards.
  The clock does not run backwards between the two ticks (\<open>a \<le> b\<close>); both transitions
  compare against the one threshold of 30 seconds.
\<close>

theorem silent_node_two_ticks:
  assumes wf: "distinct (map fst (nodes s0))"
    and fresh: "map_of (nodes s0) i = None"
    and tmo: "heartbeat_timeout s0 = 30"
    and reg: "s = apply_event (Register cores cid i t0) s0"
    and silent: "\<forall>e \<in> set (pre @ mid @ post). \<not> touches i e"
    and early: "\<forall>t \<in> set (ticks_of pre). t - t0 \<le> 30"
    and first_late: "a - t0 > 30"
    and no_tick_between: "ticks_of mid = []"
    and clock: "a \<le> b"
  shows "status_of i s = Some Ready
       \<and> status_of i (run pre s) = Some Ready
       \<and> status_of i (run (pre @ [Tick a] @ mid) s) = Some NotReady
       \<and> status_of i (run (pre @ [Tick a] @ mid @ [Tick b] @ post) s) = Some Failed"
proof -
  let ?n = "(Node_init cores None i t0)\<lparr> container_id := cid \<rparr>"
  have d: "distinct (map fst (nodes s))"
    unfolding reg using wf by (rule apply_event_distinct)
  have look: "map_of (nodes s) i = Some ?n"
    unfolding reg by (simp add: register_node_lookup)
  have T: "heartbeat_timeout s = 30"
    unfolding reg using tmo by simp
  have st: "status ?n = Ready" and hb: "last_heartbeat ?n = t0"
    by (simp_all add: Node_init_def)
  have none_late: "filter (\<lambda>t. t - t0 > 30) (ticks_of pre) = []"
    using early by (auto simp: filter_empty_conv)
  have late_b: "b - t0 > 30" using first_late clock by simp
  have s0: "status_of i s = Some Ready"
    using look st by (simp add: status_of_def)
  have sil1: "\<forall>e \<in> set pre. \<not> touches i e"
    and sil2: "\<forall>e \<in> set (pre @ [Tick a] @ mid). \<not> touches i e"
    and sil3: "\<forall>e \<in> set (pre @ [Tick a] @ mid @ [Tick b] @ post). \<not> touches i e"
    using silent by auto
  have s1: "status_of i (run pre s) = Some Ready"
    using silent_status[OF d look sil1] none_late by (simp add: T st hb)
  have s2: "status_of i (run (pre @ [Tick a] @ mid) s) = Some NotReady"
    using silent_status[OF d look sil2] none_late first_late no_tick_between
    by (simp add: T st hb ticks_of_append)
  have s3: "status_of i (run (pre @ [Tick a] @ mid @ [Tick b] @ post) s) = Some Failed"
    using silent_status[OF d look sil3] none_late first_late late_b no_tick_between
    by (simp add: T st hb ticks_of_append advance_twice del: funpow.simps)
  show ?thesis using s0 s1 s2 s3 by simp
qed

theorem silent_node_two_ticks_witness:
  "status_of ''n1'' demo_server = Some Ready
   \<and> status_of ''n1'' (run [Tick 5, Register 2 JNull ''n2'' 6, Tick 30] demo_server) = Some Ready
   \<and> status_of ''n1'' (run [Tick 5, Register 2 JNull ''n2'' 6, Tick 30, Tick 35, Heartbeat ''n2'' 36]
                          demo_server) = Some NotReady
   \<and> status_of ''n1'' (run [Tick 5, Register 2 JNull ''n2'' 6, Tick 30, Tick 35, Heartbeat ''n2'' 36,
                           Tick 40, ListNodes] demo_server) = Some Failed"
  using silent_node_two_ticks[where ?s0.0 = APIServer_init and i = "''n1''" and cores = 4 and cid = JNull
          and ?t0.0 = 0 and s = demo_server and pre = "[Tick 5, Register 2 JNull ''n2'' 6, Tick 30]"
          and a = 35 and mid = "[Heartbeat ''n2'' 36]" and b = 40 and post = "[ListNodes]"]
  by (simp add: APIServer_init_def demo_server_def)

section \<open>Heartbeats\<close>

text \<open>
  Claim C3. A heartbeat for an id of the registry sets that record's \<open>last_heartbeat\<close> to the
  current time, changes no other field of it, no other record, no key and nothing else of
  the server, and is answered with 200 and the body "Heartbeat received"; a heartbeat for
  an unknown id is answered with 404 and the body "Node not found" and leaves the server
  as it was.
\<close>

theorem heartbeat_contract:
  "(map_of (nodes s) i = Some n \<longrightarrow>
      (case update_heartbeat i now s of
         (r, s') \<Rightarrow>
           r = (JObj [(''status'', JStr ''Heartbeat received'')], 200)
           \<and> fst (update_node_heartbeat i now s)
           \<and> map_of (nodes s') i = Some (n\<lparr> last_heartbeat := now \<rparr>)
           \<and> (\<forall>j. j \<noteq> i \<longrightarrow> map_of (nodes s') j = map_of (nodes s) j)
           \<and> map fst (nodes s') = map fst (nodes s)
           \<and> srv_pods s' = srv_pods s
           \<and> heartbeat_timeout s' = heartbeat_timeout s))
   \<and> (map_of (nodes s) i = None \<longrightarrow>
        update_heartbeat i now s = ((JObj [(''error'', JStr ''Node not found'')], 404), s)
        \<and> \<not> fst (update_node_heartbeat i now s))"
  by (simp add: update_heartbeat_def update_node_heartbeat_def map_of_map_entry map_fst_map_entry)

theorem heartbeat_contract_witness:
  "map_of (nodes demo_server) ''n1'' = Some demo_node
   \<and> update_heartbeat ''n1'' 12 demo_server
       = ((JObj [(''status'', JStr ''Heartbeat received'')], 200),
          demo_server\<lparr> nodes := [(''n1'', demo_node\<lparr> last_heartbeat := 12 \<rparr>)] \<rparr>)
   \<and> map_of (nodes demo_server) ''zz'' = None
   \<and> update_heartbeat ''zz'' 12 demo_server
       = ((JObj [(''error'', JStr ''Node not found'')], 404), demo_server)"
  using heartbeat_contract[where s = demo_server and i = "''n1''" and n = demo_node and now = 12]
        heartbeat_contract[where s = demo_server and i = "''zz''" and n = demo_node and now = 12]
  by (simp add: demo_server_nodes update_heartbeat_def update_node_heartbeat_def)

section \<open>Registration\<close>




text \<open>
  Claim C9. \<open>register_node\<close> itself checks nothing: for every integer, zero and negative
  ones included, it inserts a Ready record with that many cores; only the handler of
  \<open>POST /nodes\<close> turns a non-positive number away.
\<close>

theorem register_node_unvalidated:
  "(case register_node cores cid uid now s of
      (n, s') \<Rightarrow>
        node_id n = uid \<and> status n = Ready \<and> cpu_cores n = cores \<and> available_cores n = cores
        \<and> map_of (nodes s') uid = Some n)
   \<and> (cores \<le> 0 \<longrightarrow>
        add_node (JObj [(''cpu_cores'', JInt cores)]) uid now s
          = (Inr (JObj [(''error'', JStr ''CPU cores must be positive'')], 400), s))"
  by (simp add: register_node_def Node_init_def Let_def AList.update_conv' add_node_def)

theorem register_node_unvalidated_witness:
  "(case register_node (- 3) JNull ''n2'' 7 demo_server of
      (n, s') \<Rightarrow> status n = Ready \<and> available_cores n = - 3 \<and> cpu_cores n = - 3
          \<and> map_of (nodes s') ''n2'' = Some n \<and> length (nodes s') = 2)
   \<and> (- 3::int) \<le> 0
   \<and> add_node (JObj [(''cpu_cores'', JInt (- 3))]) ''n2'' 7 demo_server
          = (Inr (JObj [(''error'', JStr ''CPU cores must be positive'')], 400), demo_server)"
  using register_node_unvalidated[where cores = "- 3" and cid = JNull and uid = "''n2''" and now = 7 and s = demo_server]
  by (simp add: register_node_def Node_init_def Let_def demo_server_nodes)

section \<open>Validation at the HTTP boundary\<close>

text \<open>
  Claim C5. A request whose \<open>cpu_cores\<close> is missing, not a number or not positive is to be
  answered with 400. On \<open>{"cpu_cores": null}\<close> the handler does not answer at all:
  \<open>int(None)\<close> raises TypeError, which the \<open>except ValueError\<close> clause does not catch, so
  the exception leaves the handler. The registry stays as it was.
\<close>

theorem add_node_null_raises:
  "add_node (JObj [(''cpu_cores'', JNull)]) uid now s = (Inl TypeError, s)"
  by (simp add: add_node_def)

text \<open>
  Claim C10, as stated: every numeric \<open>cpu_cores\<close> that is not an integer is accepted with 201
  and truncated. It fails at one half: \<open>int(0.5)\<close> is 0, and the positivity check answers 400.
\<close>

theorem add_node_half_core_rejected:
  "add_node (JObj [(''cpu_cores'', JFloat (Finite (1 / 2)))]) ''n1'' 0 APIServer_init
     = (Inr (JObj [(''error'', JStr ''CPU cores must be positive'')], 400), APIServer_init)"
  by (simp add: add_node_def trunc_def)

text \<open>
  Claim C10, amended. For a request whose \<open>cpu_cores\<close> is a finite number that is not an
  integer: when it is greater than 1 the request is accepted with 201 and the record
  created has \<open>cpu_cores\<close> equal to the value truncated toward zero (at least 1); when it is
  less than 1 its truncation is not positive and the request is answered with 400, the
  registry unchanged.
\<close>

theorem add_node_fractional:
  assumes "map_of kv ''cpu_cores'' = Some (JFloat (Finite q))" and "q \<notin> \<int>"
  shows "(1 < q \<longrightarrow>
           (let n = (Node_init (trunc q) None uid now)\<lparr> container_id := py_get (JObj kv) ''container_id'' \<rparr>
            in add_node (JObj kv) uid now s
               = (Inr (JObj [(''message'', JStr ''Node added successfully''),
                             (''node_id'', JStr uid),
                             (''cpu_cores'', JInt (trunc q))], 201),
                  s\<lparr> nodes := AList.update uid n (nodes s) \<rparr>)
               \<and> cpu_cores n = trunc q \<and> 1 \<le> trunc q
               \<and> (if 0 \<le> q then trunc q = \<lfloor>q\<rfloor> else trunc q = \<lceil>q\<rceil>)))
       \<and> (q < 1 \<longrightarrow>
           add_node (JObj kv) uid now s
             = (Inr (JObj [(''error'', JStr ''CPU cores must be positive'')], 400), s))"
proof -
  have kv: "kv \<noteq> []" using assms(1) by auto
  show ?thesis
    using assms(1) kv trunc_gt_1[of q] trunc_lt_1[of q]
    by (auto simp: add_node_def register_node_def Node_init_def Let_def)
qed

theorem add_node_fractional_witness:
  "map_of [(''cpu_cores'', JFloat (Finite (5 / 2)))] ''cpu_cores'' = Some (JFloat (Finite (5 / 2)))
   \<and> (5 / 2 :: rat) \<notin> \<int> \<and> (1 :: rat) < 5 / 2
   \<and> add_node (JObj [(''cpu_cores'', JFloat (Finite (5 / 2)))]) ''n1'' 0 APIServer_init
        = (Inr (JObj [(''message'', JStr ''Node added successfully''),
                      (''node_id'', JStr ''n1''),
                      (''cpu_cores'', JInt 2)], 201),
           APIServer_init\<lparr> nodes := [(''n1'', (Node_init 2 None ''n1'' 0)\<lparr> container_id := JNull \<rparr>)] \<rparr>)"
proof -
  have ni: "(5 / 2 :: rat) \<notin> \<int>" by simp
  have t: "trunc (5 / 2) = 2" by code_simp
  show ?thesis
    using add_node_fractional[where kv = "[(''cpu_cores'', JFloat (Finite (5 / 2)))]" and q = "5 / 2"
            and uid = "''n1''" and now = 0 and s = APIServer_init] ni t
    by (simp add: Let_def APIServer_init_def)
qed

section \<open>Statuses never go back\<close>

text \<open>
  Claim C6. In every state whose registry is a dict, and so in every reachable one, and for
  every operation (Register with a freshly drawn id, Get, List, Heartbeat, a scan tick),
  each record of the registry is still there afterwards, its status has not moved back on
  the line Ready, NotReady, Failed, and only a scan tick can change the status at all: a
  heartbeat never turns a NotReady or Failed node Ready.
\<close>

theorem status_moves_forward:
  assumes wf: "distinct (map fst (nodes s))"
    and ok: "event_ok e s"
    and look: "map_of (nodes s) i = Some n"
  shows "\<exists>n'. map_of (nodes (apply_event e s)) i = Some n'
           \<and> rank (status n) \<le> rank (status n')
           \<and> (\<not> is_tick e \<longrightarrow> status n' = status n)
           \<and> (is_tick e \<longrightarrow> last_heartbeat n' = last_heartbeat n)"
proof (cases e)
  case (Register c cid uid now)
  then have "uid \<noteq> i" using ok look by auto
  then show ?thesis
    using Register look by (simp add: register_node_lookup)
next
  case (Get j)
  then show ?thesis using look by simp
next
  case ListNodes
  then show ?thesis using look by simp
next
  case (Heartbeat j now)
  then show ?thesis
    using look by (cases "i = j") (simp_all add: heartbeat_lookup)
next
  case (Tick t)
  then show ?thesis
    using wf look rank_spec_transition[of "status n"]
    by (simp add: map_of_scan_tick check_node_spec)
qed

theorem status_moves_forward_witness:
  "distinct (map fst (nodes (scan_tick 31 demo_server)))
   \<and> event_ok (Heartbeat ''n1'' 32) (scan_tick 31 demo_server)
   \<and> map_of (nodes (scan_tick 31 demo_server)) ''n1'' = Some (demo_node\<lparr> status := NotReady \<rparr>)
   \<and> (\<exists>n'. map_of (nodes (apply_event (Heartbeat ''n1'' 32) (scan_tick 31 demo_server))) ''n1'' = Some n'
            \<and> status n' = NotReady)"
  using status_moves_forward[where s = "scan_tick 31 demo_server" and e = "Heartbeat ''n1'' 32"
          and i = "''n1''" and n = "demo_node\<lparr> status := NotReady \<rparr>"]
  by (auto simp: demo_server_late)

section \<open>A node that heartbeats again after being marked NotReady\<close>

text \<open>
  Claim C8. A NotReady node for which every later scan tick finds \<open>elapsed \<le> timeout\<close>
  (its heartbeats arrive in time) is NotReady after every run: the heartbeats keep it
  from Failed, and nothing takes it back to Ready.
\<close>

theorem heartbeating_node_stays_notready:
  assumes "distinct (map fst (nodes s))" and "map_of (nodes s) i = Some n"
    and "status n = NotReady" and "ticks_fresh i es s"
  shows "status_of i (run es s) = Some NotReady"
  using assms
proof (induction es arbitrary: s n)
  case Nil
  then show ?case by (simp add: status_of_def)
next
  case (Cons e es)
  have d: "distinct (map fst (nodes (apply_event e s)))"
    using Cons.prems(1) by (rule apply_event_distinct)
  show ?case
  proof (cases e)
    case (Register c cid uid now)
    then have ne: "uid \<noteq> i" and fr: "ticks_fresh i es (apply_event e s)"
      using Cons.prems(4) by simp_all
    have look: "map_of (nodes (apply_event e s)) i = Some n"
      using Register ne Cons.prems(2) by (simp add: register_node_lookup)
    show ?thesis using Cons.IH[OF d look Cons.prems(3) fr] by simp
  next
    case (Get j)
    then show ?thesis using Cons.IH[OF Cons.prems(1,2,3)] Cons.prems(4) by simp
  next
    case ListNodes
    then show ?thesis using Cons.IH[OF Cons.prems(1,2,3)] Cons.prems(4) by simp
  next
    case (Heartbeat j now)
    then have fr: "ticks_fresh i es (apply_event e s)"
      using Cons.prems(4) by simp
    obtain n' where look: "map_of (nodes (apply_event e s)) i = Some n'" and st: "status n' = NotReady"
      using Heartbeat Cons.prems(2,3)
      by (cases "j = i") (simp_all add: heartbeat_lookup)
    show ?thesis using Cons.IH[OF d look st fr] by simp
  next
    case (Tick t)
    then have el: "t - last_heartbeat n \<le> of_int (heartbeat_timeout s)"
      and fr: "ticks_fresh i es (apply_event e s)"
      using Cons.prems(2,4) by simp_all
    have look: "map_of (nodes (apply_event e s)) i = Some n"
      using Tick Cons.prems(1,2) el by (simp add: map_of_scan_tick check_node_fresh)
    show ?thesis using Cons.IH[OF d look Cons.prems(3) fr] by simp
  qed
qed

theorem heartbeating_node_stays_notready_witness:
  "ticks_fresh ''n1'' [Heartbeat ''n1'' 40, Tick 45, Heartbeat ''n1'' 70, Tick 75, Tick 80]
     (scan_tick 31 demo_server)
   \<and> status_of ''n1'' (scan_tick 31 demo_server) = Some NotReady
   \<and> status_of ''n1'' (run [Heartbeat ''n1'' 40, Tick 45, Heartbeat ''n1'' 70, Tick 75, Tick 80]
                          (scan_tick 31 demo_server)) = Some NotReady"
proof -
  have fr: "ticks_fresh ''n1'' [Heartbeat ''n1'' 40, Tick 45, Heartbeat ''n1'' 70, Tick 75, Tick 80]
              (scan_tick 31 demo_server)"
    by code_simp
  have d: "distinct (map fst (nodes (scan_tick 31 demo_server)))"
    and look: "map_of (nodes (scan_tick 31 demo_server)) ''n1'' = Some (demo_node\<lparr> status := NotReady \<rparr>)"
    by (simp_all add: demo_server_late)
  show ?thesis
    using heartbeating_node_stays_notready[OF d look _ fr] fr look
    by (simp add: status_of_def)
qed

end
